theory Spec2Isabelle
  imports Complex_Main "HOL-Library.Sublist"
begin

section \<open>Data model of the scraper (internal/scraper/scraper.go)\<close>

text \<open>
  The Go type \<^verbatim>\<open>float64\<close> and the library calls on it (\<^verbatim>\<open>strconv.ParseFloat\<close>,
  \<^verbatim>\<open>fmt.Sprintf\<close> with \<^verbatim>\<open>%.3f\<close> and \<^verbatim>\<open>%.2f%%\<close>) are not part of the repository.
  They are taken as a parameter: a carrier \<open>'f\<close> with exactly the operations the code
  applies. Every theorem below holds for every such carrier, IEEE doubles included.
\<close>

record 'f float64_ops =
  ParseFloat :: "string \<Rightarrow> 'f option"   \<comment> \<open>\<open>None\<close>: \<^verbatim>\<open>err != nil\<close>\<close>
  fsub :: "'f \<Rightarrow> 'f \<Rightarrow> 'f"
  fdiv :: "'f \<Rightarrow> 'f \<Rightarrow> 'f"
  fmul :: "'f \<Rightarrow> 'f \<Rightarrow> 'f"
  fzero :: "'f"                          \<comment> \<open>the zero value of a \<^verbatim>\<open>float64\<close> field\<close>
  fhundred :: "'f"                       \<comment> \<open>the constant \<^verbatim>\<open>100\<close>\<close>
  fneq0 :: "'f \<Rightarrow> bool"                 \<comment> \<open>\<^verbatim>\<open>x != 0\<close>\<close>
  fmt3 :: "'f \<Rightarrow> string"                 \<comment> \<open>\<^verbatim>\<open>fmt.Sprintf("%.3f", x)\<close>\<close>
  fmt2pct :: "'f \<Rightarrow> string"              \<comment> \<open>\<^verbatim>\<open>fmt.Sprintf("%.2f%%", x)\<close>\<close>

record 'f StockData =
  Date :: string
  OpenPrice :: string
  HighPrice :: string
  LowPrice :: string
  ClosePrice :: string
  Volume :: string
  TotalShares :: string
  NumTrades :: string
  Change :: 'f
  ChangePerc :: 'f

subsection \<open>calculatePriceChanges\<close>

text \<open>
  The body of the \<^verbatim>\<open>for\<close> loop at index \<open>i\<close>: both closes are parsed, a failed parse is
  a \<^verbatim>\<open>continue\<close>, otherwise \<^verbatim>\<open>data[i].Change\<close> is written and, when the previous close is
  not zero, \<^verbatim>\<open>data[i].ChangePerc\<close> as well (from the stored \<^verbatim>\<open>data[i].Change\<close>).
\<close>

definition priceChangeAt :: "'f float64_ops \<Rightarrow> nat \<Rightarrow> 'f StockData list \<Rightarrow> 'f StockData list" where
  "priceChangeAt F i data =
     (case ParseFloat F (ClosePrice (data ! i)) of
        None \<Rightarrow> data
      | Some currentClose \<Rightarrow>
          (case ParseFloat F (ClosePrice (data ! (i + 1))) of
             None \<Rightarrow> data
           | Some previousClose \<Rightarrow>
               (let data1 = data[i := (data ! i)\<lparr>Change := fsub F currentClose previousClose\<rparr>]
                in if fneq0 F previousClose
                   then data1[i := (data1 ! i)\<lparr>ChangePerc :=
                          fmul F (fdiv F (Change (data1 ! i)) previousClose) (fhundred F)\<rparr>]
                   else data1)))"

text \<open>The loop \<^verbatim>\<open>for i := 0; i < len(data)-1; i++\<close>; both reads are in range under its guard.\<close>

function priceChangeLoop :: "'f float64_ops \<Rightarrow> nat \<Rightarrow> 'f StockData list \<Rightarrow> 'f StockData list" where
  "priceChangeLoop F i data =
     (if i + 1 < length data then priceChangeLoop F (i + 1) (priceChangeAt F i data) else data)"
  by pat_completeness auto
termination
  by (relation "measure (\<lambda>(F, i, data). length data - i)")
     (auto simp: priceChangeAt_def Let_def split: option.splits)

declare priceChangeLoop.simps [simp del]

definition calculatePriceChanges :: "'f float64_ops \<Rightarrow> 'f StockData list \<Rightarrow> 'f StockData list" where
  "calculatePriceChanges F data = (if length data < 2 then data else priceChangeLoop F 0 data)"

text \<open>
  What the loop body leaves in row \<open>i\<close>, given the row and the close of row \<open>i + 1\<close>: the
  row itself after a failed parse, otherwise the row with its derived fields written.
\<close>

definition rowWithChange :: "'f float64_ops \<Rightarrow> 'f StockData \<Rightarrow> string \<Rightarrow> 'f StockData" where
  "rowWithChange F row olderClose =
     (case ParseFloat F (ClosePrice row) of
        None \<Rightarrow> row
      | Some currentClose \<Rightarrow>
          (case ParseFloat F olderClose of
             None \<Rightarrow> row
           | Some previousClose \<Rightarrow>
               row\<lparr>Change := fsub F currentClose previousClose,
                   ChangePerc :=
                     (if fneq0 F previousClose
                      then fmul F (fdiv F (fsub F currentClose previousClose) previousClose)
                             (fhundred F)
                      else ChangePerc row)\<rparr>))"

subsection \<open>Errors, the page capability and the output directory\<close>

datatype error =
    OpenFailed string
  | CsvFailed string
  | Panicked string                \<comment> \<open>a run-time panic: the call does not return\<close>
  | NavigateFailed string          \<comment> \<open>\<^verbatim>\<open>failed to navigate: %v\<close>\<close>
  | DateRangeFailed string         \<comment> \<open>\<^verbatim>\<open>failed to set date range: %v\<close>\<close>
  | ExtractFailed int string       \<comment> \<open>\<^verbatim>\<open>failed to extract data from page %d: %v\<close>\<close>
  | NoDataToSave
  | MkdirFailed string
  | CreateFailed string

text \<open>
  The browser session as the code sees it for one ticker: the outcome of the first
  navigation, of the date-range script, of the table-extraction script while page \<open>p\<close> is
  displayed, and of the \<^verbatim>\<open>doAjax\<close> call that asks for page \<open>p\<close>. \<open>Some e\<close> and \<open>Inl e\<close> are
  the \<^verbatim>\<open>err != nil\<close> outcomes of \<^verbatim>\<open>chromedp.Run\<close>.
\<close>

record 'f remote =
  navigateErr :: "string option"
  dateRangeErr :: "string option"
  tableAt :: "int \<Rightarrow> string + 'f StockData list"
  ajaxErr :: "int \<Rightarrow> string option"

text \<open>The calls made on the page capability inside the pagination loop, in order.\<close>

datatype request = Extract int | GotoPage int

text \<open>
  The \<^verbatim>\<open>output\<close> directory. A file is the list of CSV records it holds; a missing file is
  \<open>None\<close>. The byte encoding of a record is the business of \<^verbatim>\<open>encoding/csv\<close>, which
  reads back the fields it wrote. \<open>openErr\<close>, \<open>mkdirErr\<close> and \<open>createErr\<close> are the failures of
  \<^verbatim>\<open>os.Open\<close>, \<^verbatim>\<open>os.MkdirAll\<close> and \<^verbatim>\<open>os.Create\<close>; writes to a created file succeed.
\<close>

record disk =
  files :: "string \<rightharpoonup> string list list"
  openErr :: "string option"
  mkdirErr :: "string option"
  createErr :: "string option"

definition dataFile :: "string \<Rightarrow> string" where
  "dataFile ticker = ''output/'' @ ticker @ ''_data.csv''"

definition headers :: "string list" where
  "headers = [''Date'', ''Open'', ''High'', ''Low'', ''Close'', ''Change'', ''Change%'',
              ''Volume'', ''T.Shares'', ''Trades'']"

subsection \<open>loadExistingData\<close>

definition recordToStock :: "'f float64_ops \<Rightarrow> string list \<Rightarrow> 'f StockData" where
  "recordToStock F record =
     \<lparr>Date = record ! 0, OpenPrice = record ! 1, HighPrice = record ! 2, LowPrice = record ! 3,
      ClosePrice = record ! 4, Volume = record ! 7, TotalShares = record ! 8,
      NumTrades = record ! 9, Change = fzero F, ChangePerc = fzero F\<rparr>"

text \<open>
  A missing file is \<^verbatim>\<open>nil, nil\<close>. The header is read first (an empty file is an error);
  \<^verbatim>\<open>ReadAll\<close> then rejects a record whose field count differs from the header's. Reading
  \<^verbatim>\<open>record[9]\<close> of a record with fewer than ten fields panics.
\<close>

definition loadExistingData :: "'f float64_ops \<Rightarrow> disk \<Rightarrow> string \<Rightarrow> error + 'f StockData list" where
  "loadExistingData F d ticker =
     (case files d (dataFile ticker) of
        None \<Rightarrow> Inr []
      | Some contents \<Rightarrow>
          (case openErr d of
             Some e \<Rightarrow> Inl (OpenFailed e)
           | None \<Rightarrow>
               (case contents of
                  [] \<Rightarrow> Inl (CsvFailed ''EOF'')
                | header # records \<Rightarrow>
                    if list_ex (\<lambda>record. length record \<noteq> length header) records
                    then Inl (CsvFailed ''wrong number of fields'')
                    else if list_ex (\<lambda>record. length record < 10) records
                    then Inl (Panicked ''index out of range'')
                    else Inr (map (recordToStock F) records))))"

subsection \<open>findOverlap and the truncation at the overlap\<close>

fun dateAmong :: "string \<Rightarrow> 'f StockData list \<Rightarrow> bool" where
  "dateAmong mostRecentExisting [] = False"
| "dateAmong mostRecentExisting (record # rest) =
     (if Date record = mostRecentExisting then True else dateAmong mostRecentExisting rest)"

definition findOverlap :: "'f StockData list \<Rightarrow> 'f StockData list \<Rightarrow> bool" where
  "findOverlap existingData newData =
     (if existingData = [] \<or> newData = [] then False
      else dateAmong (Date (existingData ! 0)) newData)"

text \<open>
  \<^verbatim>\<open>for i, record := range pageData { if record.Date == existingData[0].Date
  { pageData = pageData[:i]; break } }\<close>
\<close>

fun beforeDate :: "string \<Rightarrow> 'f StockData list \<Rightarrow> 'f StockData list" where
  "beforeDate d [] = []"
| "beforeDate d (record # rest) = (if Date record = d then [] else record # beforeDate d rest)"

text \<open>Lines 179 to 191: the part of a fetched page that the loop appends.\<close>

definition keptRows :: "'f StockData list \<Rightarrow> 'f StockData list \<Rightarrow> 'f StockData list" where
  "keptRows existingData pageData =
     (if findOverlap existingData pageData
      then beforeDate (Date (existingData ! 0)) pageData else pageData)"

subsection \<open>GetStockData\<close>

text \<open>
  The pagination loop, lines 136 to 230, from the state (\<open>currentPage\<close>, \<open>foundOverlap\<close>,
  \<open>allStockData\<close>) at the loop head. It returns the requests made and either the error of
  the early \<^verbatim>\<open>return nil, err\<close> or \<open>allStockData\<close> at the loop's exit. \<open>previousPageCount\<close>
  only feeds a debug message and is left out.
\<close>

function fetchLoop ::
  "'f remote \<Rightarrow> 'f StockData list \<Rightarrow> int \<Rightarrow> int \<Rightarrow> bool \<Rightarrow> 'f StockData list \<Rightarrow> request list
     \<Rightarrow> request list \<times> (error + 'f StockData list)" where
  "fetchLoop R existingData maxPages currentPage foundOverlap allStockData reqs =
     (if currentPage \<le> maxPages \<and> \<not> foundOverlap then
        (case tableAt R currentPage of
           Inl e \<Rightarrow> (reqs @ [Extract currentPage], Inl (ExtractFailed currentPage e))
         | Inr pageData \<Rightarrow>
             if pageData = [] then (reqs @ [Extract currentPage], Inr allStockData)
             else
               let found = (if existingData \<noteq> [] then findOverlap existingData pageData
                            else foundOverlap);
                   kept = (if existingData \<noteq> [] \<and> found
                           then beforeDate (Date (existingData ! 0)) pageData else pageData)
               in if found then (reqs @ [Extract currentPage], Inr (allStockData @ kept))
                  else if length kept < 25 then (reqs @ [Extract currentPage], Inr (allStockData @ kept))
                  else if currentPage \<ge> maxPages
                  then (reqs @ [Extract currentPage], Inr (allStockData @ kept))
                  else (case ajaxErr R (currentPage + 1) of
                          Some e \<Rightarrow> (reqs @ [Extract currentPage, GotoPage (currentPage + 1)],
                                     Inr (allStockData @ kept))
                        | None \<Rightarrow>
                            fetchLoop R existingData maxPages (currentPage + 1) found
                              (allStockData @ kept)
                              (reqs @ [Extract currentPage, GotoPage (currentPage + 1)])))
      else (reqs, Inr allStockData))"
  by pat_completeness auto
termination
  by (relation "measure (\<lambda>(R, existingData, maxPages, currentPage, rest). nat (maxPages - currentPage))")
     auto

declare fetchLoop.simps [simp del]

text \<open>Lines 232 to 235: the existing history is appended after the fetched rows.\<close>

definition appendExisting :: "'f StockData list \<Rightarrow> 'f StockData list \<Rightarrow> 'f StockData list" where
  "appendExisting existingData allStockData =
     (if existingData \<noteq> [] then allStockData @ existingData else allStockData)"

text \<open>
  \<open>existingData\<close> as \<^verbatim>\<open>GetStockData\<close> holds it: a load error is logged and the scrape goes
  on with \<^verbatim>\<open>nil\<close>.
\<close>

definition existingOf :: "error + 'f StockData list \<Rightarrow> 'f StockData list" where
  "existingOf loaded = (case loaded of Inl e \<Rightarrow> [] | Inr existingData \<Rightarrow> existingData)"

text \<open>Lines 128 to 235: the loop from page 1 with nothing accumulated, then the append.\<close>

definition fetchAndMerge ::
  "'f remote \<Rightarrow> 'f StockData list \<Rightarrow> int \<Rightarrow> error + 'f StockData list" where
  "fetchAndMerge R existingData maxPages =
     (case snd (fetchLoop R existingData maxPages 1 False [] []) of
        Inl e \<Rightarrow> Inl e
      | Inr allStockData \<Rightarrow> Inr (appendExisting existingData allStockData))"

definition GetStockData ::
  "'f float64_ops \<Rightarrow> 'f remote \<Rightarrow> int \<Rightarrow> disk \<Rightarrow> string \<Rightarrow> error + 'f StockData list" where
  "GetStockData F R maxPages d ticker =
     (case loadExistingData F d ticker of
        Inl (Panicked m) \<Rightarrow> Inl (Panicked m)
      | loaded \<Rightarrow>
          (case navigateErr R of
             Some e \<Rightarrow> Inl (NavigateFailed e)
           | None \<Rightarrow>
               (case dateRangeErr R of
                  Some e \<Rightarrow> Inl (DateRangeFailed e)
                | None \<Rightarrow>
                    (case fetchAndMerge R (existingOf loaded) maxPages of
                       Inl e \<Rightarrow> Inl e
                     | Inr allStockData \<Rightarrow> Inr (calculatePriceChanges F allStockData)))))"

subsection \<open>SaveToCSV and processSingleTicker\<close>

definition stockToRecord :: "'f float64_ops \<Rightarrow> 'f StockData \<Rightarrow> string list" where
  "stockToRecord F record =
     [Date record, OpenPrice record, HighPrice record, LowPrice record, ClosePrice record,
      fmt3 F (Change record), fmt2pct F (ChangePerc record),
      Volume record, TotalShares record, NumTrades record]"

definition SaveToCSV ::
  "'f float64_ops \<Rightarrow> disk \<Rightarrow> string \<Rightarrow> 'f StockData list \<Rightarrow> error option \<times> disk" where
  "SaveToCSV F d ticker data =
     (if data = [] then (Some NoDataToSave, d)
      else case mkdirErr d of
             Some e \<Rightarrow> (Some (MkdirFailed e), d)
           | None \<Rightarrow>
               (case createErr d of
                  Some e \<Rightarrow> (Some (CreateFailed e), d)
                | None \<Rightarrow>
                    (None, d\<lparr>files := (files d)(dataFile ticker \<mapsto>
                                        headers # map (stockToRecord F) data)\<rparr>)))"

definition processSingleTicker ::
  "'f float64_ops \<Rightarrow> 'f remote \<Rightarrow> int \<Rightarrow> disk \<Rightarrow> string \<Rightarrow> error option \<times> disk" where
  "processSingleTicker F R maxPages d ticker =
     (case GetStockData F R maxPages d ticker of
        Inl err \<Rightarrow> (Some err, d)
      | Inr stockDataList \<Rightarrow> SaveToCSV F d ticker stockDataList)"

subsection \<open>Observations on a fetch\<close>

text \<open>The pages whose table was extracted, in the order of the requests.\<close>

fun extracted :: "request list \<Rightarrow> int list" where
  "extracted [] = []"
| "extracted (Extract p # rest) = p # extracted rest"
| "extracted (GotoPage p # rest) = extracted rest"

text \<open>The rows the source offers on pages \<open>first\<close> to \<open>maxPages\<close>, in page order.\<close>

definition rowsOfPage :: "'f remote \<Rightarrow> int \<Rightarrow> 'f StockData list" where
  "rowsOfPage R p = (case tableAt R p of Inl e \<Rightarrow> [] | Inr rows \<Rightarrow> rows)"

definition offeredRows :: "'f remote \<Rightarrow> int \<Rightarrow> int \<Rightarrow> 'f StockData list" where
  "offeredRows R first maxPages = concat (map (rowsOfPage R) [first..maxPages])"

text \<open>A session without failures that shows the given pages, and empty tables after them.\<close>

definition sessionOf :: "'f StockData list list \<Rightarrow> 'f remote" where
  "sessionOf pages =
     \<lparr>navigateErr = None, dateRangeErr = None,
      tableAt = (\<lambda>p. if 1 \<le> p \<and> p \<le> int (length pages) then Inr (pages ! nat (p - 1))
                      else Inr []),
      ajaxErr = (\<lambda>p. None)\<rparr>"

definition emptyDisk :: disk where
  "emptyDisk = \<lparr>files = Map.empty, openErr = None, mkdirErr = None, createErr = None\<rparr>"

subsection \<open>An exact instance of the float64 operations\<close>

text \<open>
  To run the model on concrete inputs: real arithmetic, closes written as unsigned
  decimal integers, and fixed-point printing rounded half up on the magnitude.
\<close>

definition digitTable :: "(char \<times> nat) list" where
  "digitTable = [(CHR ''0'', 0), (CHR ''1'', 1), (CHR ''2'', 2), (CHR ''3'', 3), (CHR ''4'', 4),
                 (CHR ''5'', 5), (CHR ''6'', 6), (CHR ''7'', 7), (CHR ''8'', 8), (CHR ''9'', 9)]"

fun digitsValue :: "string \<Rightarrow> nat \<Rightarrow> nat option" where
  "digitsValue [] acc = Some acc"
| "digitsValue (c # cs) acc =
     (case map_of digitTable c of None \<Rightarrow> None | Some v \<Rightarrow> digitsValue cs (10 * acc + v))"

definition parseUnsigned :: "string \<Rightarrow> real option" where
  "parseUnsigned s = (if s = [] then None else map_option real (digitsValue s 0))"

fun showNat :: "nat \<Rightarrow> string" where
  "showNat n =
     (if n < 10 then [''0123456789'' ! n]
      else showNat (n div 10) @ [''0123456789'' ! (n mod 10)])"

declare showNat.simps [simp del]

definition showFixed :: "nat \<Rightarrow> real \<Rightarrow> string" where
  "showFixed k x =
     (let scaled = nat \<lfloor>\<bar>x\<bar> * 10 ^ k + 1 / 2\<rfloor>;
          frac = showNat (scaled mod 10 ^ k)
      in (if x < 0 then ''-'' else []) @ showNat (scaled div 10 ^ k) @ ''.''
           @ replicate (k - length frac) CHR ''0'' @ frac)"

definition exactOps :: "real float64_ops" where
  "exactOps = \<lparr>ParseFloat = parseUnsigned, fsub = (-), fdiv = (/), fmul = (*), fzero = 0,
               fhundred = 100, fneq0 = (\<lambda>x. x \<noteq> 0), fmt3 = showFixed 3,
               fmt2pct = (\<lambda>x. showFixed 2 x @ ''%'')\<rparr>"

text \<open>A row as the page script delivers it: eight strings, derived fields zero.\<close>

definition pageRow :: "string \<Rightarrow> string \<Rightarrow> real StockData" where
  "pageRow date close =
     \<lparr>Date = date, OpenPrice = ''1.000'', HighPrice = ''1.000'', LowPrice = ''1.000'',
      ClosePrice = close, Volume = ''500'', TotalShares = ''1000'', NumTrades = ''7'',
      Change = 0, ChangePerc = 0\<rparr>"

text \<open>A full page of 25 rows, dated \<open>first + 24\<close> down to \<open>first\<close>.\<close>

definition fullPage :: "nat \<Rightarrow> real StockData list" where
  "fullPage first = map (\<lambda>k. pageRow (showNat k) ''100'') (rev [first..<first + 25])"

text \<open>A session that shows two full pages and whose every \<^verbatim>\<open>doAjax\<close> call fails.\<close>

definition lostSession :: "real remote" where
  "lostSession = (sessionOf [fullPage 26, fullPage 1])\<lparr>ajaxErr := (\<lambda>p. Some ''context canceled'')\<rparr>"

text \<open>The output directory as a save of the given rows for the ticker leaves it.\<close>

definition diskWith :: "string \<Rightarrow> real StockData list \<Rightarrow> disk" where
  "diskWith ticker rows =
     emptyDisk\<lparr>files := [dataFile ticker \<mapsto>
        headers # map (stockToRecord exactOps) (calculatePriceChanges exactOps rows)]\<rparr>"

section \<open>The entity-list reader (ReadTickersFromCSV)\<close>

text \<open>
  What \<^verbatim>\<open>os.Open\<close> and \<^verbatim>\<open>reader.ReadAll\<close> deliver for the given path: an open error, a
  parse error, or the records of the file.
\<close>

datatype csv_input = OpenError string | ParseError string | Records "string list list"

text \<open>The loop body \<^verbatim>\<open>tickers = append(tickers, record[0])\<close>; \<^verbatim>\<open>record[0]\<close> of an empty record panics.\<close>

fun firstFields :: "string list list \<Rightarrow> string list \<Rightarrow> error + string list" where
  "firstFields [] tickers = Inr tickers"
| "firstFields (record # rest) tickers =
     (case record of
        [] \<Rightarrow> Inl (Panicked ''index out of range [0] with length 0'')
      | ticker # others \<Rightarrow> firstFields rest (tickers @ [ticker]))"

text \<open>\<^verbatim>\<open>records[1:]\<close> panics when \<^verbatim>\<open>records\<close> is empty.\<close>

definition ReadTickersFromCSV :: "csv_input \<Rightarrow> error + string list" where
  "ReadTickersFromCSV input =
     (case input of
        OpenError e \<Rightarrow> Inl (OpenFailed e)
      | ParseError e \<Rightarrow> Inl (CsvFailed e)
      | Records records \<Rightarrow>
          (case records of
             [] \<Rightarrow> Inl (Panicked ''slice bounds out of range [1:0]'')
           | header # rest \<Rightarrow> firstFields rest []))"

section \<open>The performance tracker (internal/utils/performance.go)\<close>

text \<open>
  A \<^verbatim>\<open>*StepTiming\<close> is a node of a tree; the pointer itself is the node's \<open>ptr\<close>, a number
  given at allocation, so that \<^verbatim>\<open>subStep == target\<close> is a comparison of \<open>ptr\<close>s.
  Times are nanoseconds.
\<close>

datatype StepTiming =
  StepTiming (ptr: nat) (Name: string) (StartTime: int) (Duration: int) (SubSteps: "StepTiming list")

record StepAggregate =
  Count :: int
  Total :: int
  Average :: int
  MinDur :: int       \<comment> \<open>field \<^verbatim>\<open>Min\<close>\<close>
  MaxDur :: int       \<comment> \<open>field \<^verbatim>\<open>Max\<close>\<close>
  StepName :: string

record PerformanceTracker =
  currentStep :: "nat option"              \<comment> \<open>\<open>None\<close> is \<^verbatim>\<open>nil\<close>\<close>
  steps :: "StepTiming list"
  aggregates :: "string \<rightharpoonup> StepAggregate"
  mu :: bool                               \<comment> \<open>the mutex is held\<close>
  allocated :: nat                         \<comment> \<open>number of nodes allocated so far\<close>

text \<open>
  A call either returns, or blocks for ever on \<^verbatim>\<open>pt.mu.Lock()\<close>: \<^verbatim>\<open>sync.Mutex\<close> is not
  reentrant, so locking a held mutex never succeeds unless another goroutine unlocks it.
  \<open>Unlinked\<close> stands for a \<open>currentStep\<close> that points into no tree; \<open>StartStep\<close> links each
  node before it stores its pointer, so no sequence of calls on a new tracker gets there.
\<close>

datatype 'a outcome = Returned 'a | Deadlock | Unlinked

definition NewPerformanceTracker :: PerformanceTracker where
  "NewPerformanceTracker =
     \<lparr>currentStep = None, steps = [], aggregates = Map.empty, mu = False, allocated = 0\<rparr>"

definition Lock :: "PerformanceTracker \<Rightarrow> PerformanceTracker outcome" where
  "Lock pt = (if mu pt then Deadlock else Returned (pt\<lparr>mu := True\<rparr>))"

definition Unlock :: "PerformanceTracker \<Rightarrow> PerformanceTracker" where
  "Unlock pt = pt\<lparr>mu := False\<rparr>"

text \<open>Writing through a pointer: the node with the given \<open>ptr\<close> is replaced in its tree.\<close>

fun atPtr :: "nat \<Rightarrow> (StepTiming \<Rightarrow> StepTiming) \<Rightarrow> StepTiming \<Rightarrow> StepTiming" where
  "atPtr p f (StepTiming q name start dur subs) =
     (if q = p then f (StepTiming q name start dur subs)
      else StepTiming q name start dur (map (atPtr p f) subs))"

text \<open>Reading through a pointer.\<close>

fun deref :: "nat \<Rightarrow> StepTiming \<Rightarrow> StepTiming option"
  and derefIn :: "nat \<Rightarrow> StepTiming list \<Rightarrow> StepTiming option" where
  "deref p (StepTiming q name start dur subs) =
     (if q = p then Some (StepTiming q name start dur subs) else derefIn p subs)"
| "derefIn p [] = None"
| "derefIn p (step # rest) =
     (case deref p step of Some found \<Rightarrow> Some found | None \<Rightarrow> derefIn p rest)"

definition appendSubStep :: "StepTiming \<Rightarrow> StepTiming \<Rightarrow> StepTiming" where
  "appendSubStep step parent =
     StepTiming (ptr parent) (Name parent) (StartTime parent) (Duration parent)
       (SubSteps parent @ [step])"

definition setDuration :: "int \<Rightarrow> StepTiming \<Rightarrow> StepTiming" where
  "setDuration now step =
     StepTiming (ptr step) (Name step) (StartTime step) (now - StartTime step) (SubSteps step)"

definition StartStep :: "PerformanceTracker \<Rightarrow> string \<Rightarrow> int \<Rightarrow> PerformanceTracker outcome" where
  "StartStep pt name now =
     (case Lock pt of
        Returned pt1 \<Rightarrow>
          (let step = StepTiming (allocated pt1) name now 0 [];
               pt2 = (case currentStep pt1 of
                        Some cur \<Rightarrow> pt1\<lparr>steps := map (atPtr cur (appendSubStep step)) (steps pt1)\<rparr>
                      | None \<Rightarrow> pt1\<lparr>steps := steps pt1 @ [step]\<rparr>)
           in Returned (Unlock (pt2\<lparr>currentStep := Some (allocated pt1),
                                    allocated := Suc (allocated pt1)\<rparr>)))
      | blocked \<Rightarrow> blocked)"

text \<open>Go's integer division truncates towards zero.\<close>

definition quo :: "int \<Rightarrow> int \<Rightarrow> int" where
  "quo a b = sgn a * sgn b * (\<bar>a\<bar> div \<bar>b\<bar>)"

text \<open>Lines 124 to 143 of \<^verbatim>\<open>updateAggregates\<close>: one step folded into the bucket of its name.\<close>

definition foldStep :: "string \<Rightarrow> int \<Rightarrow> (string \<rightharpoonup> StepAggregate) \<Rightarrow> (string \<rightharpoonup> StepAggregate)" where
  "foldStep name dur aggs =
     (let agg = (case aggs name of
                   Some existing \<Rightarrow> existing
                 | None \<Rightarrow> \<lparr>Count = 0, Total = 0, Average = 0, MinDur = dur, MaxDur = dur,
                            StepName = name\<rparr>);
          agg1 = agg\<lparr>Count := Count agg + 1, Total := Total agg + dur\<rparr>;
          agg2 = agg1\<lparr>Average := quo (Total agg1) (Count agg1)\<rparr>;
          agg3 = (if dur < MinDur agg2 then agg2\<lparr>MinDur := dur\<rparr> else agg2);
          agg4 = (if dur > MaxDur agg3 then agg3\<lparr>MaxDur := dur\<rparr> else agg3)
      in aggs(name \<mapsto> agg4))"

text \<open>
  \<^verbatim>\<open>updateAggregates\<close> takes the lock itself, folds the step, recurses into every sub-step
  and unlocks on return (\<^verbatim>\<open>defer\<close>).
\<close>

fun updateAggregates :: "PerformanceTracker \<Rightarrow> StepTiming \<Rightarrow> PerformanceTracker outcome"
  and updateSubSteps :: "PerformanceTracker \<Rightarrow> StepTiming list \<Rightarrow> PerformanceTracker outcome" where
  "updateAggregates pt (StepTiming p name start dur subs) =
     (case Lock pt of
        Returned pt1 \<Rightarrow>
          (case updateSubSteps (pt1\<lparr>aggregates := foldStep name dur (aggregates pt1)\<rparr>) subs of
             Returned pt2 \<Rightarrow> Returned (Unlock pt2)
           | blocked \<Rightarrow> blocked)
      | blocked \<Rightarrow> blocked)"
| "updateSubSteps pt [] = Returned pt"
| "updateSubSteps pt (subStep # rest) =
     (case updateAggregates pt subStep of
        Returned pt1 \<Rightarrow> updateSubSteps pt1 rest
      | blocked \<Rightarrow> blocked)"

text \<open>
  \<^verbatim>\<open>findParentStep\<close>: \<open>Some parent\<close> is the \<^verbatim>\<open>true\<close> return, with \<^verbatim>\<open>pt.currentStep\<close> set to
  \<open>parent\<close>; \<open>None\<close> is \<^verbatim>\<open>false\<close>.
\<close>

fun findParentStep :: "StepTiming \<Rightarrow> nat \<Rightarrow> nat option"
  and findParentAmong :: "nat \<Rightarrow> StepTiming list \<Rightarrow> nat \<Rightarrow> nat option" where
  "findParentStep (StepTiming q name start dur subs) target = findParentAmong q subs target"
| "findParentAmong current [] target = None"
| "findParentAmong current (subStep # rest) target =
     (if ptr subStep = target then Some current
      else case findParentStep subStep target of
             Some parent \<Rightarrow> Some parent
           | None \<Rightarrow> findParentAmong current rest target)"

text \<open>The loop of \<^verbatim>\<open>EndStep\<close> over the roots; \<open>None\<close> leaves \<^verbatim>\<open>found\<close> false.\<close>

fun findFromRoots :: "StepTiming list \<Rightarrow> nat \<Rightarrow> nat option" where
  "findFromRoots [] target = None"
| "findFromRoots (step # rest) target =
     (case findParentStep step target of
        Some parent \<Rightarrow> Some parent
      | None \<Rightarrow> findFromRoots rest target)"

definition EndStep :: "PerformanceTracker \<Rightarrow> int \<Rightarrow> PerformanceTracker outcome" where
  "EndStep pt now =
     (case Lock pt of
        Returned pt1 \<Rightarrow>
          (case currentStep pt1 of
             None \<Rightarrow> Returned (Unlock pt1)
           | Some cur \<Rightarrow>
               (let pt2 = pt1\<lparr>steps := map (atPtr cur (setDuration now)) (steps pt1)\<rparr>
                in case derefIn cur (steps pt2) of
                     None \<Rightarrow> Unlinked
                   | Some step \<Rightarrow>
                       (case updateAggregates pt2 step of
                          Returned pt3 \<Rightarrow>
                            Returned (Unlock (pt3\<lparr>currentStep := findFromRoots (steps pt3) cur\<rparr>))
                        | blocked \<Rightarrow> blocked)))
      | blocked \<Rightarrow> blocked)"

text \<open>A sequence of tracker calls, each with the clock reading at the call.\<close>

datatype call = Start string int | End int

fun runCalls :: "PerformanceTracker \<Rightarrow> call list \<Rightarrow> PerformanceTracker outcome" where
  "runCalls pt [] = Returned pt"
| "runCalls pt (Start name now # rest) =
     (case StartStep pt name now of Returned pt1 \<Rightarrow> runCalls pt1 rest | blocked \<Rightarrow> blocked)"
| "runCalls pt (End now # rest) =
     (case EndStep pt now of Returned pt1 \<Rightarrow> runCalls pt1 rest | blocked \<Rightarrow> blocked)"

section \<open>Properties of the change calculator\<close>

lemma length_priceChangeAt [simp]: "length (priceChangeAt F i data) = length data"
  by (simp add: priceChangeAt_def Let_def split: option.splits)

lemma priceChangeAt_eq:
  "i < length data \<Longrightarrow>
   priceChangeAt F i data = data[i := rowWithChange F (data ! i) (ClosePrice (data ! (i + 1)))]"
  by (simp add: priceChangeAt_def rowWithChange_def Let_def split: option.splits)

lemma ClosePrice_rowWithChange [simp]: "ClosePrice (rowWithChange F row older) = ClosePrice row"
  by (simp add: rowWithChange_def split: option.splits)

lemma length_priceChangeLoop [simp]: "length (priceChangeLoop F i data) = length data"
  by (induction F i data rule: priceChangeLoop.induct)
     (simp add: priceChangeLoop.simps[of _ i data for i data])

text \<open>
  Row \<open>j\<close> of the loop's result depends on rows \<open>j\<close> and \<open>j + 1\<close> of its input only: the
  closes are strings, which the loop never writes.
\<close>

lemma priceChangeLoop_nth:
  "j < length data \<Longrightarrow>
   priceChangeLoop F i data ! j =
     (if i \<le> j \<and> j + 1 < length data
      then rowWithChange F (data ! j) (ClosePrice (data ! (j + 1))) else data ! j)"
proof (induction F i data rule: priceChangeLoop.induct)
  case (1 F i data)
  show ?case
  proof (cases "i + 1 < length data")
    case False
    then show ?thesis
      using "1.prems" by (auto simp: priceChangeLoop.simps[of F i data])
  next
    case True
    let ?d = "priceChangeAt F i data"
    have ih: "priceChangeLoop F (i + 1) ?d ! j =
       (if i + 1 \<le> j \<and> j + 1 < length ?d
        then rowWithChange F (?d ! j) (ClosePrice (?d ! (j + 1))) else ?d ! j)"
      using "1.IH"[OF True] "1.prems" by simp
    have unf: "priceChangeLoop F i data = priceChangeLoop F (i + 1) ?d"
      using True by (simp add: priceChangeLoop.simps[of F i data])
    show ?thesis
      unfolding unf ih using True "1.prems"
      by (auto simp: priceChangeAt_eq nth_list_update)
  qed
qed

lemma calculatePriceChanges_nth:
  "j < length data \<Longrightarrow>
   calculatePriceChanges F data ! j =
     (if j + 1 < length data
      then rowWithChange F (data ! j) (ClosePrice (data ! (j + 1))) else data ! j)"
  by (auto simp: calculatePriceChanges_def priceChangeLoop_nth)

lemma length_calculatePriceChanges [simp]:
  "length (calculatePriceChanges F data) = length data"
  by (simp add: calculatePriceChanges_def)

text \<open>
  Claim C6. In a series whose rows enter with zero derived fields (as decoded pages and
  loaded histories do), for every row \<open>i\<close>: the series keeps its length and the row keeps
  its eight textual fields; when \<open>i\<close> is not the last row and both \<open>close[i]\<close> and
  \<open>close[i+1]\<close> parse, \<open>change[i] = close[i] - close[i+1]\<close> and \<open>changePercent[i]\<close> is
  \<open>change[i] / close[i+1] * 100\<close> when \<open>close[i+1] != 0\<close> and zero otherwise; when one of the
  two parses fails, the derived fields of row \<open>i\<close> stay zero and the pass goes on (the other
  rows are given by the same statement at their own index); the last row keeps zero
  derived fields. An unparsable close is read by the computation of its own row and by
  that of the row before it, and each of the two is skipped on its own.
\<close>

theorem calculatePriceChanges_annotates:
  assumes zero: "\<forall>r \<in> set data. Change r = fzero F \<and> ChangePerc r = fzero F"
    and i: "i < length data"
  shows "length (calculatePriceChanges F data) = length data
    \<and> (calculatePriceChanges F data ! i)\<lparr>Change := fzero F, ChangePerc := fzero F\<rparr> = data ! i
    \<and> (if i + 1 < length data then
         (case ParseFloat F (ClosePrice (data ! i)) of
            None \<Rightarrow> Change (calculatePriceChanges F data ! i) = fzero F
                   \<and> ChangePerc (calculatePriceChanges F data ! i) = fzero F
          | Some close \<Rightarrow>
              (case ParseFloat F (ClosePrice (data ! (i + 1))) of
                 None \<Rightarrow> Change (calculatePriceChanges F data ! i) = fzero F
                        \<and> ChangePerc (calculatePriceChanges F data ! i) = fzero F
               | Some older \<Rightarrow>
                   Change (calculatePriceChanges F data ! i) = fsub F close older
                   \<and> ChangePerc (calculatePriceChanges F data ! i) =
                       (if fneq0 F older
                        then fmul F (fdiv F (Change (calculatePriceChanges F data ! i)) older)
                               (fhundred F)
                        else fzero F)))
       else Change (calculatePriceChanges F data ! i) = fzero F
            \<and> ChangePerc (calculatePriceChanges F data ! i) = fzero F)"
proof -
  have z: "Change (data ! i) = fzero F" "ChangePerc (data ! i) = fzero F"
    using zero i by auto
  have same: "(data ! i)\<lparr>Change := fzero F, ChangePerc := fzero F\<rparr> = data ! i"
    using z by (cases "data ! i") simp
  show ?thesis
    using i z same
    by (simp add: calculatePriceChanges_nth rowWithChange_def split: option.splits)
qed

text \<open>The spec's example, closes 110, 100, 90 newest first, at the middle row.\<close>

theorem calculatePriceChanges_annotates_witness:
  "Change (calculatePriceChanges exactOps
      [pageRow ''03/01/2024'' ''110'', pageRow ''02/01/2024'' ''100'',
       pageRow ''01/01/2024'' ''90''] ! 1) = 10
   \<and> ChangePerc (calculatePriceChanges exactOps
      [pageRow ''03/01/2024'' ''110'', pageRow ''02/01/2024'' ''100'',
       pageRow ''01/01/2024'' ''90''] ! 1) = 100 / 9
   \<and> \<bar>100 / 9 - 11.11\<bar> < (0.01 :: real)"
  using calculatePriceChanges_annotates [of
      "[pageRow ''03/01/2024'' ''110'', pageRow ''02/01/2024'' ''100'',
        pageRow ''01/01/2024'' ''90'']" exactOps 1]
  by (simp add: exactOps_def pageRow_def parseUnsigned_def digitTable_def)

lemmas exact_defs =
  exactOps_def pageRow_def parseUnsigned_def digitTable_def calculatePriceChanges_def
  priceChangeLoop.simps priceChangeAt_def

text \<open>
  The whole of the spec's example, and a series with an unparsable close in the middle:
  rows 0 and 1 both read it and both keep their defaults, row 2 is computed.
\<close>

lemma change_example:
  "map (\<lambda>r. (Change r, ChangePerc r)) (calculatePriceChanges exactOps
      [pageRow ''03/01/2024'' ''110'', pageRow ''02/01/2024'' ''100'',
       pageRow ''01/01/2024'' ''90'']) = [(10, 10), (10, 100 / 9), (0, 0)]"
  by (simp add: exact_defs)

lemma change_parse_failure_example:
  "map (\<lambda>r. (Change r, ChangePerc r)) (calculatePriceChanges exactOps
      [pageRow ''04/01/2024'' ''110'', pageRow ''03/01/2024'' ''n/a'',
       pageRow ''02/01/2024'' ''90'', pageRow ''01/01/2024'' ''100'']) =
     [(0, 0), (0, 0), (- 10, - 10), (0, 0)]"
  by (simp add: exact_defs)

section \<open>Properties of the pagination loop\<close>

lemma dateAmong_iff: "dateAmong d rows \<longleftrightarrow> (\<exists>r \<in> set rows. Date r = d)"
  by (induction rows) auto

lemma beforeDate_takeWhile: "beforeDate d rows = takeWhile (\<lambda>r. Date r \<noteq> d) rows"
  by (induction rows) auto

lemma findOverlap_iff:
  "findOverlap existingData rows \<longleftrightarrow>
     existingData \<noteq> [] \<and> (\<exists>r \<in> set rows. Date r = Date (existingData ! 0))"
  by (auto simp: findOverlap_def dateAmong_iff)

lemma fetchLoop_done:
  "\<not> currentPage \<le> maxPages \<Longrightarrow>
   fetchLoop R existingData maxPages currentPage False acc reqs = (reqs, Inr acc)"
  by (simp add: fetchLoop.simps[of R existingData maxPages currentPage])

lemma fetchLoop_error:
  "currentPage \<le> maxPages \<Longrightarrow> tableAt R currentPage = Inl e \<Longrightarrow>
   fetchLoop R existingData maxPages currentPage False acc reqs =
     (reqs @ [Extract currentPage], Inl (ExtractFailed currentPage e))"
  by (simp add: fetchLoop.simps[of R existingData maxPages currentPage])

lemma fetchLoop_empty:
  "currentPage \<le> maxPages \<Longrightarrow> tableAt R currentPage = Inr [] \<Longrightarrow>
   fetchLoop R existingData maxPages currentPage False acc reqs =
     (reqs @ [Extract currentPage], Inr acc)"
  by (simp add: fetchLoop.simps[of R existingData maxPages currentPage])

lemma fetchLoop_step:
  "currentPage \<le> maxPages \<Longrightarrow> tableAt R currentPage = Inr rows \<Longrightarrow> rows \<noteq> [] \<Longrightarrow>
   fetchLoop R existingData maxPages currentPage False acc reqs =
     (if findOverlap existingData rows \<or> length rows < 25 \<or> currentPage \<ge> maxPages
      then (reqs @ [Extract currentPage], Inr (acc @ keptRows existingData rows))
      else (case ajaxErr R (currentPage + 1) of
              Some e \<Rightarrow> (reqs @ [Extract currentPage, GotoPage (currentPage + 1)], Inr (acc @ rows))
            | None \<Rightarrow> fetchLoop R existingData maxPages (currentPage + 1) False (acc @ rows)
                       (reqs @ [Extract currentPage, GotoPage (currentPage + 1)])))"
  by (subst fetchLoop.simps)
     (auto simp: Let_def keptRows_def findOverlap_iff split: option.splits)


text \<open>
  Every way through one iteration, as a proof rule: a property of the loop's result holds
  when it holds where the loop exits and is carried back over the one recursive step.
\<close>

lemma fetchLoop_cases [case_names finished failed blank stop navfail continue]:
  assumes "\<And>cp acc reqs. \<not> cp \<le> maxPages \<Longrightarrow> P cp acc reqs (reqs, Inr acc)"
    and "\<And>cp acc reqs e. cp \<le> maxPages \<Longrightarrow> tableAt R cp = Inl e \<Longrightarrow>
           P cp acc reqs (reqs @ [Extract cp], Inl (ExtractFailed cp e))"
    and "\<And>cp acc reqs. cp \<le> maxPages \<Longrightarrow> tableAt R cp = Inr [] \<Longrightarrow>
           P cp acc reqs (reqs @ [Extract cp], Inr acc)"
    and "\<And>cp acc reqs rows. cp \<le> maxPages \<Longrightarrow> tableAt R cp = Inr rows \<Longrightarrow> rows \<noteq> [] \<Longrightarrow>
           findOverlap ex rows \<or> length rows < 25 \<or> cp \<ge> maxPages \<Longrightarrow>
           P cp acc reqs (reqs @ [Extract cp], Inr (acc @ keptRows ex rows))"
    and "\<And>cp acc reqs rows e. cp < maxPages \<Longrightarrow> tableAt R cp = Inr rows \<Longrightarrow> rows \<noteq> [] \<Longrightarrow>
           \<not> findOverlap ex rows \<Longrightarrow> 25 \<le> length rows \<Longrightarrow> ajaxErr R (cp + 1) = Some e \<Longrightarrow>
           P cp acc reqs (reqs @ [Extract cp, GotoPage (cp + 1)], Inr (acc @ rows))"
    and "\<And>cp acc reqs rows res. cp < maxPages \<Longrightarrow> tableAt R cp = Inr rows \<Longrightarrow> rows \<noteq> [] \<Longrightarrow>
           \<not> findOverlap ex rows \<Longrightarrow> 25 \<le> length rows \<Longrightarrow> ajaxErr R (cp + 1) = None \<Longrightarrow>
           P (cp + 1) (acc @ rows) (reqs @ [Extract cp, GotoPage (cp + 1)]) res \<Longrightarrow>
           P cp acc reqs res"
  shows "P cp acc reqs (fetchLoop R ex maxPages cp False acc reqs)"
proof (induction "nat (maxPages - cp)" arbitrary: cp acc reqs)
  case 0
  show ?case
  proof (cases "cp \<le> maxPages")
    case False
    then show ?thesis by (simp add: fetchLoop_done assms(1))
  next
    case True
    with 0 have top: "cp \<ge> maxPages" by simp
    show ?thesis
    proof (cases "tableAt R cp")
      case (Inl e)
      then show ?thesis using True by (simp add: fetchLoop_error assms(2))
    next
      case (Inr rows)
      show ?thesis
      proof (cases "rows = []")
        case True
        then show ?thesis using Inr \<open>cp \<le> maxPages\<close> by (simp add: fetchLoop_empty assms(3))
      next
        case False
        then show ?thesis
          using Inr True top by (simp add: fetchLoop_step assms(4))
      qed
    qed
  qed
next
  case (Suc n)
  then have lt: "cp < maxPages" and n: "n = nat (maxPages - (cp + 1))" by auto
  show ?case
  proof (cases "tableAt R cp")
    case (Inl e)
    then show ?thesis using lt by (simp add: fetchLoop_error assms(2))
  next
    case (Inr rows)
    show ?thesis
    proof (cases "rows = []")
      case True
      then show ?thesis using Inr lt by (simp add: fetchLoop_empty assms(3))
    next
      case False
      show ?thesis
      proof (cases "findOverlap ex rows \<or> length rows < 25")
        case True
        then show ?thesis
          using Inr False lt assms(4)[of cp rows acc reqs] by (auto simp: fetchLoop_step)
      next
        case stop: False
        show ?thesis
        proof (cases "ajaxErr R (cp + 1)")
          case (Some e)
          then show ?thesis
            using Inr False lt stop assms(5)[of cp rows e acc reqs] by (auto simp: fetchLoop_step)
        next
          case None
          have "P (cp + 1) (acc @ rows) (reqs @ [Extract cp, GotoPage (cp + 1)])
                  (fetchLoop R ex maxPages (cp + 1) False (acc @ rows)
                     (reqs @ [Extract cp, GotoPage (cp + 1)]))"
            using Suc.hyps(1)[OF n] .
          then have "P cp acc reqs (fetchLoop R ex maxPages (cp + 1) False (acc @ rows)
                     (reqs @ [Extract cp, GotoPage (cp + 1)]))"
            using assms(6)[of cp rows acc reqs] Inr False lt stop None by auto
          then show ?thesis
            using Inr False lt stop None by (auto simp: fetchLoop_step)
        qed
      qed
    qed
  qed
qed

lemma extracted_append [simp]: "extracted (xs @ ys) = extracted xs @ extracted ys"
  by (induction xs rule: extracted.induct) auto

lemma fetchLoop_requests:
  "\<exists>k. cp - 1 \<le> k \<and> k \<le> max (cp - 1) maxPages
     \<and> extracted (fst (fetchLoop R ex maxPages cp False acc reqs)) = extracted reqs @ [cp..k]"
proof (rule fetchLoop_cases[where maxPages = maxPages and P = "\<lambda>cp acc reqs res.
         \<exists>k. cp - 1 \<le> k \<and> k \<le> max (cp - 1) maxPages
           \<and> extracted (fst res) = extracted reqs @ [cp..k]"], goal_cases)
  case (1 cp acc reqs)
  then show ?case by (intro exI[of _ "cp - 1"]) simp
next
  case (2 cp acc reqs e)
  then show ?case by (intro exI[of _ cp]) simp
next
  case (3 cp acc reqs)
  then show ?case by (intro exI[of _ cp]) simp
next
  case (4 cp acc reqs rows)
  then show ?case by (intro exI[of _ cp]) simp
next
  case (5 cp acc reqs rows e)
  then show ?case by (intro exI[of _ cp]) simp
next
  case (6 cp acc reqs rows res)
  then obtain k where k: "cp \<le> k" "k \<le> max cp maxPages"
     "extracted (fst res) = extracted reqs @ cp # [cp + 1..k]" by auto
  then show ?case using 6(1) by (intro exI[of _ k]) (auto simp: upto_rec1[of cp k])
qed

lemma fetchLoop_no_head:
  assumes "ex \<noteq> []"
  shows "(\<forall>r \<in> set acc. Date r \<noteq> Date (ex ! 0)) \<longrightarrow>
     (\<forall>new. snd (fetchLoop R ex maxPages cp False acc reqs) = Inr new \<longrightarrow>
        (\<forall>r \<in> set new. Date r \<noteq> Date (ex ! 0)))"
proof (rule fetchLoop_cases[where maxPages = maxPages and ex = ex and P = "\<lambda>cp acc reqs res.
         (\<forall>r \<in> set acc. Date r \<noteq> Date (ex ! 0)) \<longrightarrow>
         (\<forall>new. snd res = Inr new \<longrightarrow> (\<forall>r \<in> set new. Date r \<noteq> Date (ex ! 0)))"], goal_cases)
  case (4 cp acc reqs rows)
  then show ?case
    using assms
    by (auto simp: keptRows_def beforeDate_takeWhile findOverlap_iff dest: set_takeWhileD)
next
  case (5 cp acc reqs rows e)
  then show ?case using assms by (auto simp: findOverlap_iff)
next
  case (6 cp acc reqs rows res)
  then show ?case using assms by (auto simp: findOverlap_iff)
qed auto

lemma offeredRows_unfold:
  "cp \<le> maxPages \<Longrightarrow> offeredRows R cp maxPages = rowsOfPage R cp @ offeredRows R (cp + 1) maxPages"
  by (simp add: offeredRows_def upto_rec1[of cp maxPages])

lemma prefix_beforeDate: "prefix (beforeDate d rows) rows"
  by (simp add: beforeDate_takeWhile takeWhile_is_prefix)

lemma prefix_keptRows: "prefix (keptRows ex rows) rows"
  by (simp add: keptRows_def prefix_beforeDate)

lemma fetchLoop_prefix:
  "\<forall>new. snd (fetchLoop R ex maxPages cp False acc reqs) = Inr new \<longrightarrow>
      prefix acc new \<and> prefix new (acc @ offeredRows R cp maxPages)"
proof (rule fetchLoop_cases[where maxPages = maxPages and ex = ex and P = "\<lambda>cp acc reqs res.
         \<forall>new. snd res = Inr new \<longrightarrow> prefix acc new \<and> prefix new (acc @ offeredRows R cp maxPages)"],
       goal_cases)
  case (4 cp acc reqs rows)
  have "prefix (keptRows ex rows) (rows @ offeredRows R (cp + 1) maxPages)"
    using prefix_keptRows by (rule prefix_prefix)
  then show ?case using 4 by (simp add: offeredRows_unfold rowsOfPage_def)
next
  case (5 cp acc reqs rows e)
  then show ?case by (simp add: offeredRows_unfold rowsOfPage_def)
next
  case (6 cp acc reqs rows res)
  then show ?case by (auto simp: offeredRows_unfold rowsOfPage_def dest: append_prefixD)
qed auto

lemma beforeDate_take:
  assumes "i < length rows" and "Date (rows ! i) = d" and "\<forall>j<i. Date (rows ! j) \<noteq> d"
  shows "beforeDate d rows = take i rows"
  unfolding beforeDate_takeWhile
  using assms by (intro takeWhile_eq_take_P_nth) auto

text \<open>
  Claim C2. When the head date of a non-empty existing history first appears at index \<open>i\<close>
  of the page just fetched, the loop keeps exactly \<open>freshRows[0:i)\<close> of that page as new
  rows and stops; the merged history is the new rows followed by the existing history as
  it was loaded. For the first page this is the whole result of fetch and merge.
\<close>

theorem overlap_merge:
  assumes ex: "existingData \<noteq> []"
    and page: "currentPage \<le> maxPages" "tableAt R currentPage = Inr freshRows"
    and i: "i < length freshRows" "Date (freshRows ! i) = Date (existingData ! 0)"
    and first: "\<forall>j<i. Date (freshRows ! j) \<noteq> Date (existingData ! 0)"
  shows "fetchLoop R existingData maxPages currentPage False acc reqs =
           (reqs @ [Extract currentPage], Inr (acc @ take i freshRows))
    \<and> appendExisting existingData (acc @ take i freshRows) = acc @ take i freshRows @ existingData
    \<and> (currentPage = 1 \<longrightarrow>
         fetchAndMerge R existingData maxPages = Inr (take i freshRows @ existingData))"
proof -
  have ne: "freshRows \<noteq> []" using i by auto
  have ov: "findOverlap existingData freshRows"
    using ex i by (auto simp: findOverlap_iff)
  have kept: "keptRows existingData freshRows = take i freshRows"
    using ov i first by (simp add: keptRows_def beforeDate_take)
  have loop: "fetchLoop R existingData maxPages currentPage False acc reqs =
           (reqs @ [Extract currentPage], Inr (acc @ take i freshRows))" for acc reqs
    using page ne ov kept by (simp add: fetchLoop_step)
  show ?thesis
    using ex loop[of acc reqs] loop[of "[]" "[]"]
    by (auto simp: appendExisting_def fetchAndMerge_def)
qed

text \<open>The spec's example: existing D5, D4, D3 and the page D7, D6, D5, D4.\<close>

theorem overlap_merge_witness:
  "fetchLoop (sessionOf [[pageRow ''D7'' ''107'', pageRow ''D6'' ''106'', pageRow ''D5'' ''105'',
                          pageRow ''D4'' ''104'']])
      [pageRow ''D5'' ''105'', pageRow ''D4'' ''104'', pageRow ''D3'' ''103''] 5 1 False [] []
     = ([Extract 1], Inr [pageRow ''D7'' ''107'', pageRow ''D6'' ''106''])
   \<and> fetchAndMerge (sessionOf [[pageRow ''D7'' ''107'', pageRow ''D6'' ''106'',
                                 pageRow ''D5'' ''105'', pageRow ''D4'' ''104'']])
      [pageRow ''D5'' ''105'', pageRow ''D4'' ''104'', pageRow ''D3'' ''103''] 5
     = Inr [pageRow ''D7'' ''107'', pageRow ''D6'' ''106'', pageRow ''D5'' ''105'',
            pageRow ''D4'' ''104'', pageRow ''D3'' ''103'']"
  using overlap_merge [of
      "[pageRow ''D5'' ''105'', pageRow ''D4'' ''104'', pageRow ''D3'' ''103'']" 1 5
      "sessionOf [[pageRow ''D7'' ''107'', pageRow ''D6'' ''106'', pageRow ''D5'' ''105'',
                   pageRow ''D4'' ''104'']]"
      "[pageRow ''D7'' ''107'', pageRow ''D6'' ''106'', pageRow ''D5'' ''105'',
        pageRow ''D4'' ''104'']" 2 "[]" "[]"]
  by (simp add: sessionOf_def pageRow_def less_Suc_eq numeral_2_eq_2)

text \<open>
  Claim C7. The fetch starts at page 1 and extracts the pages 1 to \<open>k\<close>, each once and in
  order, for some \<open>k\<close> that is at most \<open>maxPages\<close> (no page when \<open>maxPages\<close> is not positive).
  At any iteration, an empty page ends the loop with the rows accumulated so far, and a
  page of fewer than 25 rows ends it with that page's kept rows appended, however far
  \<open>currentPage\<close> is below \<open>maxPages\<close>; no further request is made in either case.
\<close>

theorem pagination_stops:
  "(\<exists>k. 0 \<le> k \<and> k \<le> max 0 maxPages
        \<and> extracted (fst (fetchLoop R existingData maxPages 1 False [] [])) = [1..k])
   \<and> (currentPage \<le> maxPages \<and> tableAt R currentPage = Inr [] \<longrightarrow>
        fetchLoop R existingData maxPages currentPage False acc reqs =
          (reqs @ [Extract currentPage], Inr acc))
   \<and> (currentPage \<le> maxPages \<and> tableAt R currentPage = Inr rows \<and> rows \<noteq> []
        \<and> length rows < 25 \<longrightarrow>
        fetchLoop R existingData maxPages currentPage False acc reqs =
          (reqs @ [Extract currentPage], Inr (acc @ keptRows existingData rows)))"
proof (intro conjI impI)
  show "\<exists>k. 0 \<le> k \<and> k \<le> max 0 maxPages
        \<and> extracted (fst (fetchLoop R existingData maxPages 1 False [] [])) = [1..k]"
    using fetchLoop_requests[of 1 maxPages R existingData "[]" "[]"] by simp
qed (auto simp: fetchLoop_empty fetchLoop_step)

lemma length_fullPage [simp]: "length (fullPage n) = 25"
  by (simp add: fullPage_def)

lemma fullPage_nonempty [simp]: "fullPage n \<noteq> []"
  using length_fullPage[of n] by (metis length_0_conv zero_neq_numeral)

text \<open>
  A full page followed by a page of two rows, with \<open>maxPages\<close> 5: the iteration at page 2
  ends the loop; an iteration at page 3, where the table is empty, would end it too; the
  whole fetch extracts pages 1 and 2.
\<close>

theorem pagination_stops_witness:
  "fetchLoop (sessionOf [fullPage 3, [pageRow ''2'' ''100'', pageRow ''1'' ''100'']]) [] 5 2 False
      (fullPage 3) [Extract 1, GotoPage 2]
     = ([Extract 1, GotoPage 2, Extract 2],
        Inr (fullPage 3 @ [pageRow ''2'' ''100'', pageRow ''1'' ''100'']))
   \<and> fetchLoop (sessionOf [fullPage 3, [pageRow ''2'' ''100'', pageRow ''1'' ''100'']]) [] 5 3 False
      (fullPage 3) [Extract 1, GotoPage 2]
     = ([Extract 1, GotoPage 2, Extract 3], Inr (fullPage 3))
   \<and> extracted (fst (fetchLoop
        (sessionOf [fullPage 3, [pageRow ''2'' ''100'', pageRow ''1'' ''100'']]) [] 5 1 False [] []))
     = [1, 2]"
  using pagination_stops [of 5 "sessionOf [fullPage 3, [pageRow ''2'' ''100'', pageRow ''1'' ''100'']]"
      "[]" 2 "fullPage 3" "[Extract 1, GotoPage 2]" "[pageRow ''2'' ''100'', pageRow ''1'' ''100'']"]
    pagination_stops [of 5 "sessionOf [fullPage 3, [pageRow ''2'' ''100'', pageRow ''1'' ''100'']]"
      "[]" 3 "fullPage 3" "[Extract 1, GotoPage 2]" "[]"]
  by (simp add: sessionOf_def keptRows_def findOverlap_def fetchLoop_step)

section \<open>Properties of the per-ticker pipeline\<close>


lemma length_stockToRecord [simp]: "length (stockToRecord F r) = 10"
  by (simp add: stockToRecord_def)

lemma length_headers [simp]: "length headers = 10"
  by (simp add: headers_def)









lemma GetStockData_fetch_error:
  assumes "snd (fetchLoop R (existingOf (loadExistingData F d ticker)) maxPages 1 False [] []) = Inl err"
  shows "\<exists>err'. GetStockData F R maxPages d ticker = Inl err'"
  using assms
  by (auto simp: GetStockData_def fetchAndMerge_def split: sum.splits error.splits option.splits)

lemma processSingleTicker_error:
  "GetStockData F R maxPages d ticker = Inl err \<Longrightarrow>
   processSingleTicker F R maxPages d ticker = (Some err, d)"
  by (simp add: processSingleTicker_def)

text \<open>
  Claim C5, as amended. A failed page extraction, at any iteration, ends the fetch at once
  with the propagated error: it is the last request made (no retry) and no row is
  returned; whenever the fetch ends so, the ticker is reported failed and the output
  directory is left as it was. A failed navigation to the next page is handled
  otherwise: the loop ends and the rows accumulated so far, the current page included,
  are returned as a successful result.
\<close>

theorem extraction_failure_aborts:
  "(currentPage \<le> maxPages \<and> tableAt R currentPage = Inl e \<longrightarrow>
      fetchLoop R existingData maxPages currentPage False acc reqs =
        (reqs @ [Extract currentPage], Inl (ExtractFailed currentPage e)))
   \<and> (snd (fetchLoop R (existingOf (loadExistingData F d ticker)) maxPages 1 False [] []) = Inl err
        \<longrightarrow> (\<exists>err'. GetStockData F R maxPages d ticker = Inl err'
                   \<and> processSingleTicker F R maxPages d ticker = (Some err', d)))
   \<and> (currentPage < maxPages \<and> tableAt R currentPage = Inr rows \<and> 25 \<le> length rows
        \<and> \<not> findOverlap existingData rows \<and> ajaxErr R (currentPage + 1) = Some e' \<longrightarrow>
      fetchLoop R existingData maxPages currentPage False acc reqs =
        (reqs @ [Extract currentPage, GotoPage (currentPage + 1)], Inr (acc @ rows)))"
proof (intro conjI impI)
  assume "snd (fetchLoop R (existingOf (loadExistingData F d ticker)) maxPages 1 False [] []) = Inl err"
  then obtain err' where "GetStockData F R maxPages d ticker = Inl err'"
    using GetStockData_fetch_error by blast
  then show "\<exists>err'. GetStockData F R maxPages d ticker = Inl err'
                   \<and> processSingleTicker F R maxPages d ticker = (Some err', d)"
    by (auto simp: processSingleTicker_error)
next
  assume a: "currentPage < maxPages \<and> tableAt R currentPage = Inr rows \<and> 25 \<le> length rows
        \<and> \<not> findOverlap existingData rows \<and> ajaxErr R (currentPage + 1) = Some e'"
  then have "rows \<noteq> []" by auto
  with a show "fetchLoop R existingData maxPages currentPage False acc reqs =
        (reqs @ [Extract currentPage, GotoPage (currentPage + 1)], Inr (acc @ rows))"
    by (simp add: fetchLoop_step)
qed (simp add: fetchLoop_error)

lemma loadExistingData_emptyDisk [simp]: "loadExistingData F emptyDisk ticker = Inr []"
  by (simp add: loadExistingData_def emptyDisk_def)

lemma lostSession_fetch:
  "fetchLoop lostSession existingData 5 1 False [] [] =
     (if findOverlap existingData (fullPage 26)
      then ([Extract 1], Inr (keptRows existingData (fullPage 26)))
      else ([Extract 1, GotoPage 2], Inr (fullPage 26)))"
  by (simp add: fetchLoop_step lostSession_def sessionOf_def)

text \<open>An extraction that fails on page 1, and a navigation that fails after a full page 1.\<close>

theorem extraction_failure_aborts_witness:
  "fetchLoop ((sessionOf [fullPage 26])\<lparr>tableAt := (\<lambda>p. Inl ''context canceled'')\<rparr>) [] 5 1 False [] []
     = ([Extract 1], Inl (ExtractFailed 1 ''context canceled''))
   \<and> fetchLoop lostSession [] 5 1 False [] [] = ([Extract 1, GotoPage 2], Inr (fullPage 26))"
  using extraction_failure_aborts [of 1 5
      "(sessionOf [fullPage 26])\<lparr>tableAt := (\<lambda>p. Inl ''context canceled'')\<rparr>"
      "''context canceled''" "[]" "[]" "[]" exactOps emptyDisk "''BBOB''"]
    extraction_failure_aborts [of 1 5 lostSession _ "[]" "[]" "[]" exactOps emptyDisk "''BBOB''" _
      "fullPage 26" "''context canceled''"]
  by (simp add: lostSession_def sessionOf_def findOverlap_def)

lemma lostSession_fields [simp]:
  "navigateErr lostSession = None" "dateRangeErr lostSession = None"
  "ajaxErr lostSession p = Some ''context canceled''"
  by (simp_all add: lostSession_def sessionOf_def)

text \<open>
  Claim C5 as stated fails: the navigation to page 2 fails after a full first page, and
  the fetch returns the 25 rows of page 1 as a successful result.
\<close>

theorem next_page_failure_counterexample:
  "ajaxErr lostSession 2 = Some ''context canceled''
   \<and> fetchLoop lostSession [] 5 1 False [] [] = ([Extract 1, GotoPage 2], Inr (fullPage 26))
   \<and> GetStockData exactOps lostSession 5 emptyDisk ''BBOB''
       = Inr (calculatePriceChanges exactOps (fullPage 26))"
  by (simp add: lostSession_fetch findOverlap_def GetStockData_def fetchAndMerge_def
        appendExisting_def existingOf_def)







lemma diskWith_fields [simp]:
  "mkdirErr (diskWith ticker rows) = None" "createErr (diskWith ticker rows) = None"
  "openErr (diskWith ticker rows) = None"
  "files (diskWith ticker rows) (dataFile ticker) =
     Some (headers # map (stockToRecord exactOps) (calculatePriceChanges exactOps rows))"
  by (simp_all add: diskWith_def emptyDisk_def)

lemma calculatePriceChanges_Nil [simp]: "calculatePriceChanges F rows = [] \<longleftrightarrow> rows = []"
  using length_calculatePriceChanges[of F rows] by (metis length_0_conv)




lemma prefix_takeWhile:
  "prefix xs ys \<Longrightarrow> \<forall>x \<in> set xs. P x \<Longrightarrow> prefix xs (takeWhile P ys)"
  by (auto simp: prefix_def)

lemma distinct_prefix_map:
  "prefix xs ys \<Longrightarrow> distinct (map f ys) \<Longrightarrow> distinct (map f xs)"
  by (auto simp: prefix_def)

text \<open>
  Claim C4, as amended. For a non-empty existing history and a successful fetch, the
  merged result is the new rows followed by the existing history; the new rows are a
  prefix of the rows offered on pages 1 to \<open>maxPages\<close> in page order, so the order of both
  inputs is preserved, and none of them carries the date of the history's head. The
  merged dates are distinct provided the existing dates are, and the rows offered before
  the first occurrence of the head date have distinct dates of which none occurs in the
  existing history. The loop compares with the head date only.
\<close>

theorem merge_no_duplicates:
  assumes ex: "existingData \<noteq> []"
    and merged: "fetchAndMerge R existingData maxPages = Inr merged"
  shows "\<exists>new. merged = new @ existingData
      \<and> prefix new (offeredRows R 1 maxPages)
      \<and> (\<forall>r \<in> set new. Date r \<noteq> Date (existingData ! 0))
      \<and> (distinct (map Date existingData)
          \<and> distinct (map Date (takeWhile (\<lambda>r. Date r \<noteq> Date (existingData ! 0))
                                  (offeredRows R 1 maxPages)))
          \<and> (\<forall>r \<in> set (takeWhile (\<lambda>r. Date r \<noteq> Date (existingData ! 0))
                                  (offeredRows R 1 maxPages)).
                Date r \<notin> Date ` set existingData)
          \<longrightarrow> distinct (map Date merged))"
proof -
  let ?head = "Date (existingData ! 0)"
  let ?newer = "takeWhile (\<lambda>r. Date r \<noteq> ?head) (offeredRows R 1 maxPages)"
  obtain new where new: "snd (fetchLoop R existingData maxPages 1 False [] []) = Inr new"
    and m: "merged = new @ existingData"
    using merged ex by (auto simp: fetchAndMerge_def appendExisting_def split: sum.splits)
  have pre: "prefix new (offeredRows R 1 maxPages)"
    using fetchLoop_prefix[of R existingData maxPages 1 "[]" "[]"] new by simp
  have nohead: "\<forall>r \<in> set new. Date r \<noteq> ?head"
    using fetchLoop_no_head[OF ex, of "[]" R maxPages 1 "[]"] new by simp
  have pre': "prefix new ?newer"
    using pre nohead by (rule prefix_takeWhile)
  have "distinct (map Date merged)"
    if d1: "distinct (map Date existingData)" and d2: "distinct (map Date ?newer)"
      and d3: "\<forall>r \<in> set ?newer. Date r \<notin> Date ` set existingData"
  proof -
    have "distinct (map Date new)"
      using pre' d2 by (rule distinct_prefix_map)
    moreover have "set new \<subseteq> set ?newer"
      using pre' by (rule set_mono_prefix)
    ultimately show ?thesis
      using d1 d3 m by auto
  qed
  then show ?thesis
    using m pre nohead by blast
qed

text \<open>The spec's example once more.\<close>

theorem merge_no_duplicates_witness:
  "fetchAndMerge (sessionOf [[pageRow ''D7'' ''107'', pageRow ''D6'' ''106'',
                              pageRow ''D5'' ''105'', pageRow ''D4'' ''104'']])
      [pageRow ''D5'' ''105'', pageRow ''D4'' ''104'', pageRow ''D3'' ''103''] 5
     = Inr [pageRow ''D7'' ''107'', pageRow ''D6'' ''106'', pageRow ''D5'' ''105'',
            pageRow ''D4'' ''104'', pageRow ''D3'' ''103'']
   \<and> distinct (map Date [pageRow ''D7'' ''107'', pageRow ''D6'' ''106'', pageRow ''D5'' ''105'',
            pageRow ''D4'' ''104'', pageRow ''D3'' ''103''])"
  using merge_no_duplicates [of
      "[pageRow ''D5'' ''105'', pageRow ''D4'' ''104'', pageRow ''D3'' ''103'']"
      "sessionOf [[pageRow ''D7'' ''107'', pageRow ''D6'' ''106'', pageRow ''D5'' ''105'',
                   pageRow ''D4'' ''104'']]" 5
      "[pageRow ''D7'' ''107'', pageRow ''D6'' ''106'', pageRow ''D5'' ''105'',
        pageRow ''D4'' ''104'', pageRow ''D3'' ''103'']"]
  by (simp add: fetchAndMerge_def fetchLoop_step sessionOf_def keptRows_def findOverlap_def
        appendExisting_def pageRow_def)

text \<open>
  Claim C4 as stated fails: the page lacks the head date D5 but holds the older D4, no
  overlap is found, and D4 is both among the new rows and twice in the merged result.
\<close>

theorem merge_duplicates_counterexample:
  "fetchAndMerge (sessionOf [[pageRow ''D7'' ''107'', pageRow ''D4'' ''104'']])
      [pageRow ''D5'' ''105'', pageRow ''D4'' ''104''] 5
     = Inr [pageRow ''D7'' ''107'', pageRow ''D4'' ''104'', pageRow ''D5'' ''105'',
            pageRow ''D4'' ''104'']
   \<and> \<not> distinct (map Date [pageRow ''D7'' ''107'', pageRow ''D4'' ''104'',
                             pageRow ''D5'' ''105'', pageRow ''D4'' ''104''])
   \<and> snd (fetchLoop (sessionOf [[pageRow ''D7'' ''107'', pageRow ''D4'' ''104'']])
             [pageRow ''D5'' ''105'', pageRow ''D4'' ''104''] 5 1 False [] [])
       = Inr [pageRow ''D7'' ''107'', pageRow ''D4'' ''104'']
   \<and> pageRow ''D4'' ''104'' \<in> set [pageRow ''D5'' ''105'', pageRow ''D4'' ''104'']"
  by (simp add: fetchAndMerge_def fetchLoop_step sessionOf_def keptRows_def findOverlap_def
        appendExisting_def pageRow_def)

section \<open>Properties of the entity-list reader\<close>

lemma firstFields_nonempty:
  "\<forall>record \<in> set records. record \<noteq> [] \<Longrightarrow>
   firstFields records tickers = Inr (tickers @ map hd records)"
proof (induction records arbitrary: tickers)
  case Nil
  then show ?case by simp
next
  case (Cons first rest)
  then obtain ticker others where "first = ticker # others"
    by (cases first) auto
  with Cons show ?case by simp
qed

text \<open>
  Claim C10. \<^verbatim>\<open>ReadTickersFromCSV\<close> is partial: when the file holds at least one record
  (the header), the result is the first field of every record after the header; when the
  file holds no record at all, the slice \<^verbatim>\<open>records[1:]\<close> panics, and neither an error nor
  an empty list is returned. (\<^verbatim>\<open>encoding/csv\<close> never delivers a record without fields,
  which is the second premise.)
\<close>

theorem ReadTickersFromCSV_partial:
  "(records \<noteq> [] \<and> (\<forall>record \<in> set records. record \<noteq> []) \<longrightarrow>
      ReadTickersFromCSV (Records records) = Inr (map hd (tl records)))
   \<and> ReadTickersFromCSV (Records []) = Inl (Panicked ''slice bounds out of range [1:0]'')"
proof (intro conjI impI)
  assume a: "records \<noteq> [] \<and> (\<forall>record \<in> set records. record \<noteq> [])"
  then obtain header rest where r: "records = header # rest"
    by (cases records) auto
  with a have "\<forall>record \<in> set rest. record \<noteq> []" by simp
  then have "firstFields rest [] = Inr ([] @ map hd rest)"
    by (rule firstFields_nonempty)
  with r show "ReadTickersFromCSV (Records records) = Inr (map hd (tl records))"
    by (simp add: ReadTickersFromCSV_def)
next
  show "ReadTickersFromCSV (Records []) = Inl (Panicked ''slice bounds out of range [1:0]'')"
    by (simp add: ReadTickersFromCSV_def)
qed

theorem ReadTickersFromCSV_partial_witness:
  "[[''Ticker'', ''Name''], [''BBOB'', ''Bank of Baghdad''], [''BMNS'']] \<noteq> []
   \<and> list_all (\<lambda>fields. fields \<noteq> [])
         [[''Ticker'', ''Name''], [''BBOB'', ''Bank of Baghdad''], [''BMNS'']]
   \<and> ReadTickersFromCSV
        (Records [[''Ticker'', ''Name''], [''BBOB'', ''Bank of Baghdad''], [''BMNS'']])
       = Inr [''BBOB'', ''BMNS'']
   \<and> ReadTickersFromCSV (Records []) = Inl (Panicked ''slice bounds out of range [1:0]'')"
  using ReadTickersFromCSV_partial
    [of "[[''Ticker'', ''Name''], [''BBOB'', ''Bank of Baghdad''], [''BMNS'']]"]
  by simp

section \<open>Properties of the performance tracker\<close>

lemma updateAggregates_held: "mu pt \<Longrightarrow> updateAggregates pt step = Deadlock"
  by (cases step) (simp add: Lock_def)

text \<open>
  With a step open, \<^verbatim>\<open>EndStep\<close> never returns: either the caller finds the mutex held, or
  \<^verbatim>\<open>EndStep\<close> takes it and \<^verbatim>\<open>updateAggregates\<close> then waits for it.
\<close>

lemma EndStep_open_never_returns:
  "currentStep pt \<noteq> None \<Longrightarrow> EndStep pt now \<noteq> Returned pt'"
  by (auto simp: EndStep_def Lock_def Let_def updateAggregates_held split: option.splits)

lemmas tracker_defs =
  NewPerformanceTracker_def StartStep_def EndStep_def Lock_def Unlock_def
  setDuration_def appendSubStep_def Let_def

text \<open>
  Claim C9. The claim says that no tracker operation asks for the lock while its own call
  holds it, so that every \<^verbatim>\<open>EndStep\<close> completes. \<^verbatim>\<open>EndStep\<close> locks \<^verbatim>\<open>pt.mu\<close> and, with a
  step open, calls \<^verbatim>\<open>updateAggregates\<close>, whose first statement locks \<^verbatim>\<open>pt.mu\<close> again: on a
  new tracker, whatever the step's name and the clock readings, the first \<^verbatim>\<open>EndStep\<close>
  after a \<^verbatim>\<open>StartStep\<close> never returns.
\<close>

theorem EndStep_locks_twice:
  "runCalls NewPerformanceTracker [Start name t0, End t1] = Deadlock"
  by (simp add: tracker_defs)

text \<open>
  Claim C1. Two sequential runs, each opening \<open>fetch\<close> and, inside it, \<open>decode\<close> twice, are
  claimed to end with count 2 for \<open>fetch\<close> and count 4 for \<open>decode\<close>. The calls block at the
  first \<^verbatim>\<open>EndStep\<close>, so no aggregate is produced. Moreover the folds that the three
  \<^verbatim>\<open>EndStep\<close> calls of one run ask for (each \<open>decode\<close> at its own end, then \<open>fetch\<close> followed
  by the recursion into its two sub-steps) already count \<open>decode\<close> four times in a single
  run, twice per node.
\<close>

theorem aggregate_two_runs:
  "runCalls NewPerformanceTracker
     [Start ''fetch'' 0, Start ''decode'' 1, End 2, Start ''decode'' 3, End 4, End 5,
      Start ''fetch'' 6, Start ''decode'' 7, End 8, Start ''decode'' 9, End 10, End 11]
     = Deadlock
   \<and> runCalls NewPerformanceTracker [Start ''fetch'' 0, Start ''decode'' 1, End 2] = Deadlock
   \<and> map_option Count
        ((foldStep ''decode'' 1 (foldStep ''decode'' 1 (foldStep ''fetch'' 5
           (foldStep ''decode'' 1 (foldStep ''decode'' 1 Map.empty))))) ''decode'') = Some 4"
  by (simp add: tracker_defs foldStep_def quo_def)

end
